theory Spec2Isabelle
  imports Main "HOL-Library.Sublist"
begin

section \<open>Data model (types.ts, constants.ts)\<close>

text \<open>
  The interface \<open>AnalysisResult\<close> of types.ts. The field \<open>id\<close> is called \<open>result_id\<close>
  here, since \<open>id\<close> is the identity function of HOL. \<open>level\<close> is a JavaScript number that
  only ever holds the integer returned by \<open>parseInt\<close>; \<open>description\<close> is the value of the
  property lookup \<open>DR_DESCRIPTIONS[level]\<close>, which at run time is a string or
  \<open>undefined\<close> (\<open>None\<close>).
\<close>

record AnalysisResult =
  result_id :: string
  timestamp :: int
  imageUrl :: string
  level :: int
  description :: "string option"

record ImageFilters =
  brightness :: int
  contrast :: int
  saturation :: int

definition DEFAULT_IMAGE_FILTERS :: ImageFilters where
  "DEFAULT_IMAGE_FILTERS = \<lparr>brightness = 100, contrast = 100, saturation = 100\<rparr>"

text \<open>
  The table \<open>DR_DESCRIPTIONS\<close> of constants.ts: an object with the keys 0 to 4. A lookup
  with any other key gives \<open>undefined\<close>.
\<close>

definition DR_DESCRIPTIONS :: "int \<Rightarrow> string option" where
  "DR_DESCRIPTIONS n =
     (if n = 0 then Some ''No visible signs of diabetic retinopathy. Regular screening should continue as recommended by your healthcare provider.''
      else if n = 1 then Some ''Mild non-proliferative diabetic retinopathy (NPDR) with microaneurysms. Monitor closely and maintain good blood sugar control.''
      else if n = 2 then Some ''Moderate NPDR with multiple microaneurysms, dot and blot hemorrhages, and hard exudates. More frequent monitoring required.''
      else if n = 3 then Some ''Severe NPDR with extensive hemorrhages, venous beading, and intraretinal microvascular abnormalities (IRMA). Immediate medical attention needed.''
      else if n = 4 then Some ''Proliferative diabetic retinopathy (PDR) with neovascularization and potential vitreous hemorrhage. Urgent treatment required.''
      else None)"

text \<open>
  What the browser hands to \<open>onDrop\<close>: of a \<open>File\<close> the code reads \<open>type\<close> and \<open>size\<close>
  only (its content comes back later, from the \<open>FileReader\<close>).
\<close>

record File =
  file_type :: string
  file_size :: nat

text \<open>
  A value thrown in JavaScript: an \<open>Error\<close> object with its message, or anything else
  (\<open>err instanceof Error\<close> is false).
\<close>

datatype thrown = Error string | NonError

section \<open>The JavaScript string operations the code calls\<close>

text \<open>
  Strings are lists of \<open>char\<close>, so a character is a code unit below 256. In that range the
  white space and line terminators of ECMAScript are TAB, LF, VT, FF, CR, SPACE and the
  no-break space U+00A0.
\<close>

definition is_white_space :: "char \<Rightarrow> bool" where
  "is_white_space c = ((of_char c :: nat) \<in> {9, 10, 11, 12, 13, 32, 160})"

text \<open>\<open>String.prototype.trim\<close>: white space removed at both ends.\<close>

definition trim :: "string \<Rightarrow> string" where
  "trim s = rev (dropWhile is_white_space (rev (dropWhile is_white_space s)))"

text \<open>\<open>String.prototype.includes\<close>: \<open>sub\<close> occurs in \<open>s\<close> as a contiguous run.\<close>

fun str_includes :: "string \<Rightarrow> string \<Rightarrow> bool" where
  "str_includes [] sub = (sub = [])"
| "str_includes (c # cs) sub = (prefix sub (c # cs) \<or> str_includes cs sub)"

text \<open>
  The value of a character as a digit: 0 to 9 for the decimal digits, 10 to 35 for the
  letters of either case; \<open>None\<close> for every other character.
\<close>

definition digit_value :: "char \<Rightarrow> nat option" where
  "digit_value c =
     (let n = (of_char c :: nat)
      in if 48 \<le> n \<and> n \<le> 57 then Some (n - 48)
         else if 97 \<le> n \<and> n \<le> 122 then Some (n - 87)
         else if 65 \<le> n \<and> n \<le> 90 then Some (n - 55)
         else None)"

definition radix_digit :: "nat \<Rightarrow> char \<Rightarrow> bool" where
  "radix_digit R c = (case digit_value c of None \<Rightarrow> False | Some v \<Rightarrow> v < R)"

definition to_number :: "nat \<Rightarrow> string \<Rightarrow> nat" where
  "to_number R Z = foldl (\<lambda>a c. a * R + (case digit_value c of None \<Rightarrow> 0 | Some v \<Rightarrow> v)) 0 Z"

text \<open>
  \<open>parseInt(text)\<close> with no radix argument, after ECMAScript's algorithm: leading white
  space is skipped, one sign is read, a prefix \<open>0x\<close> or \<open>0X\<close> switches to radix 16, and
  the longest run of digits of the radix is the number. No digit at all gives \<open>NaN\<close>,
  which is \<open>None\<close> here. The result is an unbounded integer: a JavaScript number rounds
  beyond \<open>2^53\<close>, which changes no comparison with 0 or 4, and \<open>-0\<close> is 0.
\<close>

definition parseInt :: "string \<Rightarrow> int option" where
  "parseInt inputString =
     (let S = dropWhile is_white_space inputString;
          sign = (if S \<noteq> [] \<and> hd S = CHR ''-'' then - 1 else (1::int));
          S1 = (if S \<noteq> [] \<and> (hd S = CHR ''+'' \<or> hd S = CHR ''-'') then tl S else S);
          hex = (take 2 S1 = ''0x'' \<or> take 2 S1 = ''0X'');
          R = (if hex then 16 else 10);
          S2 = (if hex then drop 2 S1 else S1);
          Z = takeWhile (radix_digit R) S2
      in if Z = [] then None else Some (sign * int (to_number R Z)))"

section \<open>analyzeImage\<close>

text \<open>
  The regular expression \<open>/^data:([A-Za-z-+/]+);base64,(.+)$/\<close> of \<open>analyzeImage\<close>.
  The first group is the longest run of its character class (the \<open>;\<close> that must follow
  is outside the class); the second group is the rest of the string, not empty and
  with no line terminator, since \<open>.\<close> matches none and \<open>$\<close> is the end of the input.
\<close>

definition mime_char :: "char \<Rightarrow> bool" where
  "mime_char c =
     (let n = (of_char c :: nat)
      in (65 \<le> n \<and> n \<le> 90) \<or> (97 \<le> n \<and> n \<le> 122) \<or> c = CHR ''-'' \<or> c = CHR ''+'' \<or> c = CHR ''/'')"

definition line_terminator :: "char \<Rightarrow> bool" where
  "line_terminator c = ((of_char c :: nat) \<in> {10, 13})"

definition strip_prefix :: "string \<Rightarrow> string \<Rightarrow> string option" where
  "strip_prefix p s = (if prefix p s then Some (drop (length p) s) else None)"

definition match_data_url :: "string \<Rightarrow> (string \<times> string) option" where
  "match_data_url imageData =
     (case strip_prefix ''data:'' imageData of
        None \<Rightarrow> None
      | Some r \<Rightarrow>
          (let mimeType = takeWhile mime_char r
           in if mimeType = [] then None
              else (case strip_prefix '';base64,'' (dropWhile mime_char r) of
                      None \<Rightarrow> None
                    | Some base64Data \<Rightarrow>
                        if base64Data = [] \<or> list_ex line_terminator base64Data then None
                        else Some (mimeType, base64Data))))"

text \<open>
  The \<open>catch\<close> block of \<open>analyzeImage\<close> (lines 102 to 129): the message of an \<open>Error\<close> is
  searched for the remote service's failure words, in the order of the source, and a
  new \<open>Error\<close> is thrown.
\<close>

definition analyzeImage_catch :: "thrown \<Rightarrow> thrown" where
  "analyzeImage_catch err =
     (case err of
        NonError \<Rightarrow> Error ''Failed to analyze the image. Please try again.''
      | Error message \<Rightarrow>
          if str_includes message ''UNAUTHENTICATED''
            then Error ''API key is invalid or expired. Please check your configuration.''
          else if str_includes message ''PERMISSION_DENIED''
            then Error ''Access denied. Please check your API key permissions.''
          else if str_includes message ''RESOURCE_EXHAUSTED''
            then Error ''API quota exceeded. Please try again later.''
          else if str_includes message ''size'' \<or> str_includes message ''too large''
            then Error ''Image size exceeds limits. Please use a smaller image (max 4MB).''
          else if str_includes message ''timeout''
            then Error ''Analysis timed out. Please try again.''
          else if str_includes message ''network''
            then Error ''Network error. Please check your internet connection.''
          else Error message)"

text \<open>
  The part of \<open>analyzeImage\<close> before the request is sent (lines 58 to 79). The API key
  is \<open>import.meta.env.VITE_GEMINI_API_KEY\<close>: \<open>None\<close> when undefined, and the empty string
  is falsy too. The key check stands before the \<open>try\<close>, so its error does not pass
  through the \<open>catch\<close> block. The result is the pair \<open>(mimeType, base64Data)\<close> of the
  request.
\<close>

definition falsy :: "string option \<Rightarrow> bool" where
  "falsy v = (case v of None \<Rightarrow> True | Some s \<Rightarrow> s = [])"

definition analyzeImage_prepare :: "string option \<Rightarrow> string \<Rightarrow> thrown + (string \<times> string)" where
  "analyzeImage_prepare apiKey imageData =
     (if falsy apiKey then Inl (Error ''Gemini API key is not configured'')
      else (case match_data_url imageData of
              None \<Rightarrow> Inl (analyzeImage_catch (Error ''Invalid image format''))
            | Some (mimeType, base64Data) \<Rightarrow>
                if mimeType \<noteq> ''image/jpeg'' \<and> mimeType \<noteq> ''image/png''
                  then Inl (analyzeImage_catch (Error ''Unsupported image format. Please use JPEG or PNG.''))
                else Inr (mimeType, base64Data)))"

text \<open>
  How \<open>Promise.race([resultPromise, timeoutPromise])\<close> settles. \<open>resultPromise\<close> is
  fulfilled with the library's result object or rejected with what the library throws;
  the timer rejects. A result object is \<open>None\<close> when it is falsy or has no \<open>response\<close>;
  otherwise it carries what \<open>response.text()\<close> does: return a string or throw.
\<close>

datatype settlement = Fulfilled "(thrown + string) option" | Rejected thrown

definition timeoutMs :: nat where
  "timeoutMs = 30000"

definition timeout_rejection :: settlement where
  "timeout_rejection = Rejected (Error ''Analysis timed out. Please try again.'')"

text \<open>
  The part of \<open>analyzeImage\<close> after the \<open>await\<close> of the race (lines 87 to 129): the
  validated level, or the \<open>Error\<close> thrown by the \<open>catch\<close> block.
\<close>

definition analyzeImage_resume :: "settlement \<Rightarrow> thrown + int" where
  "analyzeImage_resume r =
     (case r of
        Rejected err \<Rightarrow> Inl (analyzeImage_catch err)
      | Fulfilled None \<Rightarrow>
          Inl (analyzeImage_catch (Error ''Failed to get a valid response from the AI model''))
      | Fulfilled (Some (Inl err)) \<Rightarrow> Inl (analyzeImage_catch err)
      | Fulfilled (Some (Inr raw)) \<Rightarrow>
          (let text = trim raw
           in case parseInt text of
                None \<Rightarrow> Inl (analyzeImage_catch (Error ''Invalid model response. Please try again.''))
              | Some lvl \<Rightarrow>
                  if lvl < 0 \<or> lvl > 4
                    then Inl (analyzeImage_catch (Error ''Invalid model response. Please try again.''))
                  else Inr lvl))"

text \<open>The whole of \<open>analyzeImage\<close>, for a request whose race settles with \<open>r\<close>.\<close>

definition analyzeImage :: "string option \<Rightarrow> string \<Rightarrow> settlement \<Rightarrow> thrown + int" where
  "analyzeImage apiKey imageData r =
     (case analyzeImage_prepare apiKey imageData of
        Inl err \<Rightarrow> Inl err
      | Inr request \<Rightarrow> analyzeImage_resume r)"

section \<open>processImage\<close>

text \<open>
  The \<open>FileReader\<close> of \<open>processImage\<close> ends in one of two ways: \<open>onload\<close>, with
  \<open>reader.result\<close> a string (\<open>Some\<close>) or not (\<open>None\<close>), or \<open>onerror\<close>.
\<close>

datatype reader_outcome = Load "string option" | ReadFailure

text \<open>Lines 136 to 142 and 159 to 161: the image data, or the \<open>Error\<close> that rejects.\<close>

definition processImage_read :: "reader_outcome \<Rightarrow> thrown + string" where
  "processImage_read out =
     (case out of
        ReadFailure \<Rightarrow> Inl (Error ''Failed to read the image file.'')
      | Load None \<Rightarrow> Inl (Error ''Failed to read image file'')
      | Load (Some imageData) \<Rightarrow>
          if imageData = [] then Inl (Error ''Failed to read image file'') else Inr imageData)"

text \<open>
  Lines 145 to 151: the record built from the level. \<open>uuid\<close> and \<open>now\<close> are what
  \<open>crypto.randomUUID()\<close> and \<open>Date.now()\<close> return.
\<close>

definition processImage_result :: "string \<Rightarrow> int \<Rightarrow> string \<Rightarrow> int \<Rightarrow> AnalysisResult" where
  "processImage_result uuid now imageData lvl =
     \<lparr>result_id = uuid, timestamp = now, imageUrl = imageData, level = lvl,
      description = DR_DESCRIPTIONS lvl\<rparr>"

text \<open>
  The whole of \<open>processImage\<close>, for a read that ends with \<open>out\<close> and a request whose race
  settles with \<open>r\<close>.
\<close>

definition processImage ::
  "string option \<Rightarrow> reader_outcome \<Rightarrow> settlement \<Rightarrow> string \<Rightarrow> int \<Rightarrow> thrown + AnalysisResult" where
  "processImage apiKey out r uuid now =
     (case processImage_read out of
        Inl err \<Rightarrow> Inl err
      | Inr imageData \<Rightarrow>
          (case analyzeImage apiKey imageData r of
             Inl err \<Rightarrow> Inl err
           | Inr lvl \<Rightarrow> Inr (processImage_result uuid now imageData lvl)))"

section \<open>The state of the component\<close>

text \<open>
  One call of \<open>onDrop\<close> that passed validation is an attempt. Between its \<open>await\<close>s it is
  waiting for the \<open>FileReader\<close> (\<open>Reading\<close>) or for the race of the request against the
  timer (\<open>Racing\<close>, with the image data it read); after the race has settled, or after a
  failure, it is \<open>Settled\<close>. \<open>closure_image\<close> is the value of the variable \<open>image\<close> that
  the closure of this call of \<open>onDrop\<close> holds: the state of the render that created the
  callback, which the later \<open>setImage\<close> calls do not change.
\<close>

datatype phase = Reading | Racing string | Settled

record attempt =
  closure_image :: "string option"
  phase :: phase

text \<open>
  The React state of \<open>App\<close> (\<open>image\<close> is \<open>image_st\<close> here, since \<open>image\<close> is a constant
  of HOL), the configured API key, and what the component does to the browser: the
  object URLs created and not revoked, the requests sent to the model, the timers
  armed (attempt and delay in milliseconds), and the attempts started.
\<close>

record app_state =
  apiKey :: "string option"
  image_st :: "string option"
  loading :: bool
  prediction :: "AnalysisResult option"
  error :: "string option"
  showHistory :: bool
  history :: "AnalysisResult list"
  imageFilters :: ImageFilters
  object_urls :: "string list"
  network_calls :: "(string \<times> string) list"
  timers :: "(nat \<times> nat) list"
  attempts :: "attempt list"

text \<open>
  The state after the first render: \<open>stored\<close> is the history that \<open>useLocalStorage\<close>
  reads under the key \<open>analysisHistory\<close>, the empty list when there is none.
\<close>

definition initial_state :: "string option \<Rightarrow> AnalysisResult list \<Rightarrow> app_state" where
  "initial_state key stored =
     \<lparr>apiKey = key, image_st = None, loading = False, prediction = None, error = None,
      showHistory = False, history = stored, imageFilters = DEFAULT_IMAGE_FILTERS,
      object_urls = [], network_calls = [], timers = [], attempts = []\<rparr>"

section \<open>The History\<close>

text \<open>The updater of line 190: \<open>[result, ...prev].slice(0, 10)\<close>.\<close>

definition history_add :: "AnalysisResult \<Rightarrow> AnalysisResult list \<Rightarrow> AnalysisResult list" where
  "history_add result prev = take 10 (result # prev)"

text \<open>The updater of line 275: \<open>prev.filter((item) => item.id !== id)\<close>.\<close>

definition history_delete :: "string \<Rightarrow> AnalysisResult list \<Rightarrow> AnalysisResult list" where
  "history_delete ident prev = filter (\<lambda>item. result_id item \<noteq> ident) prev"

text \<open>
  Modelled from the spec: the setter returned by the hook \<open>useLocalStorage\<close>, whose
  file hooks/useLocalStorage.ts is not among the sources. After the spec's History
  Cache, a mutation applies the updater to the current History and the whole
  structure replaces the old one (and is persisted, which is not modelled).
\<close>

definition setHistory :: "(AnalysisResult list \<Rightarrow> AnalysisResult list) \<Rightarrow> app_state \<Rightarrow> app_state" where
  "setHistory f s = s\<lparr>history := f (history s)\<rparr>"

definition deleteFromHistory :: "string \<Rightarrow> app_state \<Rightarrow> app_state" where
  "deleteFromHistory ident s = setHistory (history_delete ident) s"

definition selectFromHistory :: "AnalysisResult \<Rightarrow> app_state \<Rightarrow> app_state" where
  "selectFromHistory result s =
     s\<lparr>image_st := Some (imageUrl result), prediction := Some result, error := None,
       showHistory := False\<rparr>"

section \<open>onDrop and resetAnalysis\<close>

text \<open>\<open>URL.revokeObjectURL\<close>: the URL is no longer held.\<close>

definition revokeObjectURL :: "string \<Rightarrow> app_state \<Rightarrow> app_state" where
  "revokeObjectURL u s = s\<lparr>object_urls := removeAll u (object_urls s)\<rparr>"

definition resetAnalysis :: "app_state \<Rightarrow> app_state" where
  "resetAnalysis s =
     (let s1 = (case image_st s of
                  None \<Rightarrow> s
                | Some u \<Rightarrow> if u = [] then s else revokeObjectURL u s)
      in s1\<lparr>image_st := None, prediction := None, error := None,
            imageFilters := DEFAULT_IMAGE_FILTERS\<rparr>)"

text \<open>
  The \<open>catch\<close> and \<open>finally\<close> blocks of \<open>onDrop\<close> (lines 192 to 200). \<open>img\<close> is the
  variable \<open>image\<close> of the closure; the test \<open>if (image)\<close> fails for \<open>null\<close> and for
  the empty string.
\<close>

definition onDrop_catch :: "string option \<Rightarrow> thrown \<Rightarrow> app_state \<Rightarrow> app_state" where
  "onDrop_catch img err s =
     (let s1 = s\<lparr>error := Some (case err of
                                   Error message \<Rightarrow> message
                                 | NonError \<Rightarrow> ''An unexpected error occurred. Please try again.'')\<rparr>;
          s2 = (case img of
                  None \<Rightarrow> s1
                | Some u \<Rightarrow> if u = [] then s1 else (revokeObjectURL u s1)\<lparr>image_st := None\<rparr>)
      in s2\<lparr>loading := False\<rparr>)"

definition maxSize :: nat where
  "maxSize = 4 * 1024 * 1024"

text \<open>
  \<open>onDrop\<close> up to its \<open>await\<close> (lines 167 to 188). \<open>img\<close> is the variable \<open>image\<close> of
  the closure and \<open>objectUrl\<close> is what \<open>URL.createObjectURL\<close> returns. A file that
  passes both checks starts an attempt, which waits for the \<open>FileReader\<close>.
\<close>

definition onDrop_begin :: "string option \<Rightarrow> File list \<Rightarrow> string \<Rightarrow> app_state \<Rightarrow> app_state" where
  "onDrop_begin img acceptedFiles objectUrl s =
     (case acceptedFiles of
        [] \<Rightarrow> s
      | f # _ \<Rightarrow>
          if file_type f \<noteq> ''image/jpeg'' \<and> file_type f \<noteq> ''image/png''
            then onDrop_catch img (Error ''Please upload a valid JPEG or PNG image.'') s
          else if file_size f > maxSize
            then onDrop_catch img (Error ''Image size must be less than 4MB.'') s
          else s\<lparr>loading := True, error := None, prediction := None,
                 object_urls := objectUrl # object_urls s, image_st := Some objectUrl,
                 attempts := attempts s @ [\<lparr>closure_image = img, phase = Reading\<rparr>]\<rparr>)"

text \<open>\<open>onDrop\<close> after \<open>processImage\<close> has resolved (lines 189 to 190 and 199).\<close>

definition onDrop_resolved :: "AnalysisResult \<Rightarrow> app_state \<Rightarrow> app_state" where
  "onDrop_resolved result s =
     (setHistory (history_add result) (s\<lparr>prediction := Some result\<rparr>))\<lparr>loading := False\<rparr>"

definition phase_of :: "app_state \<Rightarrow> nat \<Rightarrow> phase option" where
  "phase_of s k = (if k < length (attempts s) then Some (phase (attempts s ! k)) else None)"

definition set_phase :: "nat \<Rightarrow> phase \<Rightarrow> app_state \<Rightarrow> app_state" where
  "set_phase k p s = s\<lparr>attempts := (attempts s)[k := (attempts s ! k)\<lparr>phase := p\<rparr>]\<rparr>"

text \<open>
  The \<open>FileReader\<close> of attempt \<open>k\<close> ends: \<open>processImage\<close> rejects, or \<open>analyzeImage\<close>
  runs up to its \<open>await\<close>: it throws, or it arms the timer, sends the request
  (\<open>model.generateContent\<close>) and waits for the race. An attempt that is not reading
  has no reader left to end.
\<close>

definition reader_done :: "nat \<Rightarrow> reader_outcome \<Rightarrow> app_state \<Rightarrow> app_state" where
  "reader_done k out s =
     (if phase_of s k \<noteq> Some Reading then s
      else (case processImage_read out of
              Inl err \<Rightarrow> onDrop_catch (closure_image (attempts s ! k)) err (set_phase k Settled s)
            | Inr imageData \<Rightarrow>
                (case analyzeImage_prepare (apiKey s) imageData of
                   Inl err \<Rightarrow>
                     onDrop_catch (closure_image (attempts s ! k)) err (set_phase k Settled s)
                 | Inr request \<Rightarrow>
                     (set_phase k (Racing imageData) s)
                       \<lparr>timers := timers s @ [(k, timeoutMs)],
                        network_calls := network_calls s @ [request]\<rparr>)))"

text \<open>
  The race of attempt \<open>k\<close> settles with \<open>r\<close>: \<open>analyzeImage\<close> resumes, then
  \<open>processImage\<close> and \<open>onDrop\<close>. \<open>Promise.race\<close> settles once: for an attempt that is
  not racing (its race has settled already, or has not started) the settlement of a
  promise of the race has no continuation to run.
\<close>

definition race_settled :: "nat \<Rightarrow> settlement \<Rightarrow> string \<Rightarrow> int \<Rightarrow> app_state \<Rightarrow> app_state" where
  "race_settled k r uuid now s =
     (case phase_of s k of
        Some (Racing imageData) \<Rightarrow>
          (case analyzeImage_resume r of
             Inl err \<Rightarrow> onDrop_catch (closure_image (attempts s ! k)) err (set_phase k Settled s)
           | Inr lvl \<Rightarrow>
               onDrop_resolved (processImage_result uuid now imageData lvl) (set_phase k Settled s))
      | _ \<Rightarrow> s)"

section \<open>Events\<close>

text \<open>
  What happens to the component, one event at a time (JavaScript runs one callback
  to its end before the next): a drop, with the \<open>image\<close> of the closure, the accepted
  files and the object URL the browser will return; the end of the \<open>FileReader\<close> of an
  attempt; the timer of an attempt firing; the request of an attempt settling (with the
  values \<open>crypto.randomUUID()\<close> and \<open>Date.now()\<close> would return then); and the user's
  actions on the History panel and on the image. The History panel offers the entries
  of the History, so an entry is selected by its position.
\<close>

datatype event =
    Drop "string option" "File list" string
  | ReaderEnds nat reader_outcome
  | TimerFires nat
  | NetworkSettles nat settlement string int
  | SelectEntry nat
  | DeleteEntry string
  | Reset
  | ToggleHistory
  | SetImageFilters ImageFilters

definition step :: "event \<Rightarrow> app_state \<Rightarrow> app_state" where
  "step e s =
     (case e of
        Drop img acceptedFiles objectUrl \<Rightarrow> onDrop_begin img acceptedFiles objectUrl s
      | ReaderEnds k out \<Rightarrow> reader_done k out s
      | TimerFires k \<Rightarrow> race_settled k timeout_rejection [] 0 s
      | NetworkSettles k r uuid now \<Rightarrow> race_settled k r uuid now s
      | SelectEntry i \<Rightarrow> (if i < length (history s) then selectFromHistory (history s ! i) s else s)
      | DeleteEntry ident \<Rightarrow> deleteFromHistory ident s
      | Reset \<Rightarrow> resetAnalysis s
      | ToggleHistory \<Rightarrow> s\<lparr>showHistory := \<not> showHistory s\<rparr>
      | SetImageFilters fs \<Rightarrow> s\<lparr>imageFilters := fs\<rparr>)"

definition run :: "event list \<Rightarrow> app_state \<Rightarrow> app_state" where
  "run es s = foldl (\<lambda>t e. step e t) s es"

section \<open>Results built from the table\<close>

text \<open>
  A result whose level is one of 0 to 4 and whose description is the entry of the
  table for that level; and a state in which the prediction and every entry of the
  History are such results.
\<close>

definition from_table :: "AnalysisResult \<Rightarrow> bool" where
  "from_table res =
     (level res \<in> {0, 1, 2, 3, 4} \<and> description res = DR_DESCRIPTIONS (level res) \<and>
      description res \<noteq> None)"

definition results_from_table :: "app_state \<Rightarrow> bool" where
  "results_from_table s =
     (list_all from_table (history s) \<and>
      (case prediction s of None \<Rightarrow> True | Some res \<Rightarrow> from_table res))"

section \<open>Example inputs\<close>

text \<open>
  Concrete inputs for the instances below: a PNG file of exactly 4 MiB, the state of
  a fresh page with an API key and an empty stored History, a History entry, states
  with 3 and with 10 stored entries, the states reached from the fresh page when a
  file has been dropped, when it has been read, so that its request is in flight, and
  when a second file has been dropped and read while the first request is in flight,
  and the states reached from the page with 3 stored entries when a file has been
  dropped and read, and when its request has then been answered with \<open>abc\<close>.
\<close>

definition example_png :: File where
  "example_png = \<lparr>file_type = ''image/png'', file_size = 4194304\<rparr>"

definition example_fresh :: app_state where
  "example_fresh = initial_state (Some ''key'') []"

definition example_entry :: "string \<Rightarrow> AnalysisResult" where
  "example_entry ident =
     \<lparr>result_id = ident, timestamp = 0, imageUrl = ''data:image/png;base64,AAAA'', level = 2,
      description = DR_DESCRIPTIONS 2\<rparr>"

definition example_stored :: app_state where
  "example_stored =
     initial_state (Some ''key'') [example_entry ''a'', example_entry ''b'', example_entry ''c'']"

definition example_reading :: app_state where
  "example_reading = run [Drop None [example_png] ''blob:1''] example_fresh"

definition example_racing :: app_state where
  "example_racing =
     run [ReaderEnds 0 (Load (Some ''data:image/png;base64,AAAA''))] example_reading"

definition example_superseded :: app_state where
  "example_superseded =
     run [Drop (Some ''blob:1'') [example_png] ''blob:2'',
          ReaderEnds 1 (Load (Some ''data:image/png;base64,BBBB''))] example_racing"

definition example_full :: app_state where
  "example_full =
     initial_state (Some ''key'')
       (map example_entry [''r10'', ''r09'', ''r08'', ''r07'', ''r06'', ''r05'', ''r04'', ''r03'', ''r02'', ''r01''])"



section \<open>How the handlers change the fields of the state\<close>

lemma onDrop_catch_fields:
  "history (onDrop_catch img err s) = history s"
  "prediction (onDrop_catch img err s) = prediction s"
  "loading (onDrop_catch img err s) = False"
  "network_calls (onDrop_catch img err s) = network_calls s"
  "timers (onDrop_catch img err s) = timers s"
  "attempts (onDrop_catch img err s) = attempts s"
  "apiKey (onDrop_catch img err s) = apiKey s"
  by (simp_all add: onDrop_catch_def revokeObjectURL_def Let_def split: option.split)

lemma error_onDrop_catch: "error (onDrop_catch img (Error m) s) = Some m"
  by (simp add: onDrop_catch_def revokeObjectURL_def Let_def split: option.split)

lemma set_phase_fields:
  "history (set_phase k p s) = history s"
  "prediction (set_phase k p s) = prediction s"
  "network_calls (set_phase k p s) = network_calls s"
  "timers (set_phase k p s) = timers s"
  "apiKey (set_phase k p s) = apiKey s"
  "error (set_phase k p s) = error s"
  "loading (set_phase k p s) = loading s"
  "image_st (set_phase k p s) = image_st s"
  "object_urls (set_phase k p s) = object_urls s"
  "length (attempts (set_phase k p s)) = length (attempts s)"
  by (simp_all add: set_phase_def)

lemma history_onDrop_begin: "history (onDrop_begin img fs u s) = history s"
  by (simp add: onDrop_begin_def onDrop_catch_fields split: list.split)

lemma history_reader_done: "history (reader_done k out s) = history s"
  by (simp add: reader_done_def onDrop_catch_fields set_phase_fields split: sum.split)

lemma history_onDrop_resolved: "history (onDrop_resolved r s) = history_add r (history s)"
  by (simp add: onDrop_resolved_def setHistory_def)

lemma history_race_settled:
  "history (race_settled k r u n s) = history s \<or>
   (\<exists>res. history (race_settled k r u n s) = history_add res (history s))"
  by (auto simp: race_settled_def onDrop_catch_fields set_phase_fields history_onDrop_resolved
       split: option.split phase.split sum.split)

lemma run_Nil: "run [] s = s"
  by (simp add: run_def)

lemma run_Cons: "run (e # es) s = run es (step e s)"
  by (simp add: run_def)

lemma example_png_fields:
  "file_type example_png = ''image/png''" "file_size example_png = 4194304"
  by (simp_all add: example_png_def)

lemma example_stored_history:
  "history example_stored = [example_entry ''a'', example_entry ''b'', example_entry ''c'']"
  by (simp add: example_stored_def initial_state_def)

section \<open>The History: the bound of 10\<close>

lemma length_history_add: "length (history_add r h) \<le> 10"
  by (simp add: history_add_def)

lemma history_add_Cons: "history_add r h = r # take 9 h"
  by (simp add: history_add_def numeral_eq_Suc)

lemma history_add_full: "length h = 10 \<Longrightarrow> history_add r h = r # butlast h"
  by (simp add: history_add_Cons butlast_conv_take)

lemma length_history_delete: "length (history_delete i h) \<le> length h"
  by (simp add: history_delete_def)

lemma length_history_step:
  assumes "length (history s) \<le> 10"
  shows "length (history (step e s)) \<le> 10"
proof (cases e)
  case (Drop img fs u)
  with assms show ?thesis by (simp add: step_def history_onDrop_begin)
next
  case (ReaderEnds k out)
  with assms show ?thesis by (simp add: step_def history_reader_done)
next
  case (TimerFires k)
  with assms history_race_settled [of k timeout_rejection "[]" 0 s] show ?thesis
    by (auto simp: step_def length_history_add)
next
  case (NetworkSettles k r u n)
  with assms history_race_settled [of k r u n s] show ?thesis
    by (auto simp: step_def length_history_add)
next
  case (SelectEntry i)
  with assms show ?thesis by (simp add: step_def selectFromHistory_def)
next
  case (DeleteEntry ident)
  with assms length_history_delete [of ident "history s"] show ?thesis
    by (simp add: step_def deleteFromHistory_def setHistory_def)
next
  case Reset
  with assms show ?thesis
    by (simp add: step_def resetAnalysis_def revokeObjectURL_def Let_def split: option.split)
next
  case ToggleHistory
  with assms show ?thesis by (simp add: step_def)
next
  case (SetImageFilters fs)
  with assms show ?thesis by (simp add: step_def)
qed

lemma length_history_run:
  "length (history s) \<le> 10 \<Longrightarrow> length (history (run es s)) \<le> 10"
  by (induction es arbitrary: s) (simp_all add: run_Nil run_Cons length_history_step)

lemma example_full_history:
  "history example_full =
     map example_entry [''r10'', ''r09'', ''r08'', ''r07'', ''r06'', ''r05'', ''r04'', ''r03'', ''r02'', ''r01'']"
  by (simp add: example_full_def initial_state_def)

text \<open>
  C2. The successful end of \<open>onDrop\<close> is the only place that adds to the History: the
  new result comes first, followed by the first 9 of the old entries, so the History
  has at most 10 entries afterwards, and when it had 10 the last one, which is the
  oldest, is the one that goes. A deletion does not lengthen the History. Hence a
  History of at most 10 entries (the empty one of a fresh page is such) has at most 10
  entries after every sequence of events.
\<close>

theorem history_at_most_10:
  "length (history (onDrop_resolved r s)) \<le> 10 \<and>
   history (onDrop_resolved r s) = r # take 9 (history s) \<and>
   (length (history s) = 10 \<longrightarrow> history (onDrop_resolved r s) = r # butlast (history s)) \<and>
   (length (history s) \<le> 10 \<longrightarrow>
      length (history (deleteFromHistory ident s)) \<le> 10 \<and>
      length (history (run es s)) \<le> 10)"
proof -
  have "length (history s) \<le> 10 \<Longrightarrow> length (history (deleteFromHistory ident s)) \<le> 10"
    using length_history_delete [of ident "history s"]
    by (simp add: deleteFromHistory_def setHistory_def)
  then show ?thesis
    by (simp add: history_onDrop_resolved length_history_add history_add_full length_history_run
          history_add_Cons [symmetric])
qed

theorem history_at_most_10_witness:
  "length (history example_full) = 10 \<and>
   history (onDrop_resolved (example_entry ''new'') example_full) =
     example_entry ''new'' # butlast (history example_full) \<and>
   length (history example_full) \<le> 10 \<and>
   length (history (deleteFromHistory ''r03'' example_full)) \<le> 10 \<and>
   length (history (run [DeleteEntry ''r03'', SelectEntry 0] example_full)) \<le> 10"
proof -
  have len: "length (history example_full) = 10"
    by (simp add: example_full_history)
  then have le: "length (history example_full) \<le> 10"
    by simp
  from len le
    history_at_most_10 [of "example_entry ''new''" example_full "''r03''"
      "[DeleteEntry ''r03'', SelectEntry 0]"]
  show ?thesis by blast
qed

section \<open>Image Intake: the checks of onDrop\<close>

text \<open>
  C6. \<open>onDrop\<close> starts an attempt for its first file if and only if the type of the
  file is exactly \<open>image/jpeg\<close> or \<open>image/png\<close> and its size is at most 4 MiB. Every
  other file is rejected with the message of its failed check, no attempt is started
  and no timer armed; in both cases \<open>onDrop\<close> itself sends no request to the model
  (an accepted file's request is sent later, when the file has been read).
\<close>

theorem onDrop_accepts_jpeg_png_up_to_4MiB:
  "((file_type f = ''image/jpeg'' \<or> file_type f = ''image/png'') \<and>
      file_size f \<le> 4 * 1024 * 1024 \<longrightarrow>
      loading (onDrop_begin img (f # fs) u s) \<and>
      error (onDrop_begin img (f # fs) u s) = None \<and>
      image_st (onDrop_begin img (f # fs) u s) = Some u \<and>
      attempts (onDrop_begin img (f # fs) u s) =
        attempts s @ [\<lparr>closure_image = img, phase = Reading\<rparr>]) \<and>
   (\<not> ((file_type f = ''image/jpeg'' \<or> file_type f = ''image/png'') \<and>
        file_size f \<le> 4 * 1024 * 1024) \<longrightarrow>
      error (onDrop_begin img (f # fs) u s) =
        Some (if file_type f \<noteq> ''image/jpeg'' \<and> file_type f \<noteq> ''image/png''
              then ''Please upload a valid JPEG or PNG image.''
              else ''Image size must be less than 4MB.'') \<and>
      \<not> loading (onDrop_begin img (f # fs) u s) \<and>
      attempts (onDrop_begin img (f # fs) u s) = attempts s \<and>
      timers (onDrop_begin img (f # fs) u s) = timers s) \<and>
   network_calls (onDrop_begin img (f # fs) u s) = network_calls s"
  by (simp add: onDrop_begin_def maxSize_def onDrop_catch_fields error_onDrop_catch)

theorem onDrop_accepts_jpeg_png_up_to_4MiB_witness:
  "loading (onDrop_begin None [example_png] ''blob:1'' example_fresh) \<and>
   attempts (onDrop_begin None [example_png] ''blob:1'' example_fresh) =
     attempts example_fresh @ [\<lparr>closure_image = None, phase = Reading\<rparr>] \<and>
   error (onDrop_begin None [example_png\<lparr>file_size := 4194305\<rparr>] ''blob:1'' example_fresh) =
     Some ''Image size must be less than 4MB.'' \<and>
   attempts (onDrop_begin None [example_png\<lparr>file_size := 4194305\<rparr>] ''blob:1'' example_fresh) =
     attempts example_fresh \<and>
   error (onDrop_begin None [example_png\<lparr>file_type := ''image/gif''\<rparr>] ''blob:1'' example_fresh) =
     Some ''Please upload a valid JPEG or PNG image.'' \<and>
   network_calls
       (onDrop_begin None [example_png\<lparr>file_type := ''image/gif''\<rparr>] ''blob:1'' example_fresh) =
     network_calls example_fresh"
  using onDrop_accepts_jpeg_png_up_to_4MiB [of example_png None "[]" "''blob:1''" example_fresh]
    onDrop_accepts_jpeg_png_up_to_4MiB
      [of "example_png\<lparr>file_size := 4194305\<rparr>" None "[]" "''blob:1''" example_fresh]
    onDrop_accepts_jpeg_png_up_to_4MiB
      [of "example_png\<lparr>file_type := ''image/gif''\<rparr>" None "[]" "''blob:1''" example_fresh]
  by (simp add: example_png_fields)

section \<open>The History: deletion\<close>

lemma history_delete_absent:
  "ident \<notin> result_id ` set h \<Longrightarrow> history_delete ident h = h"
  by (induction h) (auto simp: history_delete_def)

lemma history_delete_present:
  assumes "distinct (map result_id h)" and "ident \<in> result_id ` set h"
  shows "\<exists>xs y ys. h = xs @ y # ys \<and> result_id y = ident \<and> history_delete ident h = xs @ ys"
proof -
  from assms(2) obtain y where y: "y \<in> set h" "result_id y = ident" by auto
  then obtain xs ys where h: "h = xs @ y # ys" by (auto dest: split_list)
  from assms(1) h y(2) have "ident \<notin> result_id ` set xs" "ident \<notin> result_id ` set ys"
    by auto
  then have "history_delete ident xs = xs" "history_delete ident ys = ys"
    by (simp_all add: history_delete_absent)
  then have "history_delete ident h = xs @ ys"
    using h y(2) by (simp add: history_delete_def)
  with h y(2) show ?thesis by blast
qed

text \<open>
  C9. Deleting an id that no entry of the History has leaves the state as it is.
  Deleting an id that an entry has, in a History whose ids are distinct, removes that
  one entry: the History is \<open>xs @ y # ys\<close> with \<open>y\<close> the entry of that id, and it becomes
  \<open>xs @ ys\<close>, so the entries before and after keep their order.
\<close>

theorem deleteFromHistory_removes_one:
  "(ident \<notin> result_id ` set (history s) \<longrightarrow> deleteFromHistory ident s = s) \<and>
   (distinct (map result_id (history s)) \<and> ident \<in> result_id ` set (history s) \<longrightarrow>
      (\<exists>xs y ys. history s = xs @ y # ys \<and> result_id y = ident \<and>
                 history (deleteFromHistory ident s) = xs @ ys))"
  using history_delete_absent [of ident "history s"] history_delete_present [of "history s" ident]
  by (simp add: deleteFromHistory_def setHistory_def)

theorem deleteFromHistory_removes_one_witness:
  "''z'' \<notin> result_id ` set (history example_stored) \<and>
   deleteFromHistory ''z'' example_stored = example_stored \<and>
   distinct (map result_id (history example_stored)) \<and>
   ''b'' \<in> result_id ` set (history example_stored) \<and>
   (\<exists>xs y ys. history example_stored = xs @ y # ys \<and> result_id y = ''b'' \<and>
              history (deleteFromHistory ''b'' example_stored) = xs @ ys)"
proof -
  have absent: "''z'' \<notin> result_id ` set (history example_stored)"
    by (simp add: example_stored_history example_entry_def)
  have present: "distinct (map result_id (history example_stored)) \<and>
      ''b'' \<in> result_id ` set (history example_stored)"
    by (simp add: example_stored_history example_entry_def)
  from absent present
    deleteFromHistory_removes_one [of "''z''" example_stored]
    deleteFromHistory_removes_one [of "''b''" example_stored]
  show ?thesis by blast
qed

section \<open>analyzeImage after the race\<close>

lemma catch_invalid_response:
  "analyzeImage_catch (Error ''Invalid model response. Please try again.'') =
     Error ''Invalid model response. Please try again.''"
  by (simp add: analyzeImage_catch_def)

lemma catch_timed_out:
  "analyzeImage_catch (Error ''Analysis timed out. Please try again.'') =
     Error ''Analysis timed out. Please try again.''"
  by (simp add: analyzeImage_catch_def)

lemma analyzeImage_catch_Error: "\<exists>m. analyzeImage_catch err = Error m"
  by (simp add: analyzeImage_catch_def split: thrown.split)

lemma analyzeImage_resume_range:
  "analyzeImage_resume r = Inr lvl \<Longrightarrow> 0 \<le> lvl \<and> lvl \<le> 4"
  by (auto simp: analyzeImage_resume_def Let_def
        split: settlement.splits option.splits sum.splits if_splits)

lemma analyzeImage_resume_Error:
  "analyzeImage_resume r = Inl err \<Longrightarrow> \<exists>m. err = Error m"
  using analyzeImage_catch_Error
  by (auto simp: analyzeImage_resume_def Let_def
        split: settlement.splits option.splits sum.splits if_splits)

lemma analyzeImage_resume_invalid:
  assumes "case parseInt (trim raw) of None \<Rightarrow> True | Some n \<Rightarrow> n < 0 \<or> 4 < n"
  shows "analyzeImage_resume (Fulfilled (Some (Inr raw))) =
           Inl (Error ''Invalid model response. Please try again.'')"
  using assms by (auto simp: analyzeImage_resume_def catch_invalid_response split: option.splits)

lemma resume_timeout:
  "analyzeImage_resume timeout_rejection = Inl (Error ''Analysis timed out. Please try again.'')"
  by (simp add: analyzeImage_resume_def timeout_rejection_def catch_timed_out)

lemma DR_DESCRIPTIONS_defined: "0 \<le> n \<Longrightarrow> n \<le> 4 \<Longrightarrow> DR_DESCRIPTIONS n \<noteq> None"
  by (simp add: DR_DESCRIPTIONS_def)

lemma race_settled_fails:
  "phase_of s k = Some (Racing d) \<Longrightarrow> analyzeImage_resume r = Inl err \<Longrightarrow>
     race_settled k r u n s = onDrop_catch (closure_image (attempts s ! k)) err (set_phase k Settled s)"
  by (simp add: race_settled_def)

lemma race_settled_succeeds:
  "phase_of s k = Some (Racing d) \<Longrightarrow> analyzeImage_resume r = Inr lvl \<Longrightarrow>
     race_settled k r u n s = onDrop_resolved (processImage_result u n d lvl) (set_phase k Settled s)"
  by (simp add: race_settled_def)

lemma race_settled_idle:
  "phase_of s k = Some Settled \<Longrightarrow> race_settled k r u n s = s"
  by (simp add: race_settled_def)

section \<open>The example states, evaluated\<close>

lemma example_reading_eq:
  "example_reading =
     \<lparr>apiKey = Some ''key'', image_st = Some ''blob:1'', loading = True, prediction = None,
      error = None, showHistory = False, history = [],
      imageFilters = DEFAULT_IMAGE_FILTERS, object_urls = [''blob:1''],
      network_calls = [], timers = [],
      attempts = [\<lparr>closure_image = None, phase = Reading\<rparr>]\<rparr>"
  by (simp add: example_reading_def example_fresh_def initial_state_def run_def step_def
        onDrop_begin_def example_png_def maxSize_def)

lemma prepare_example:
  "analyzeImage_prepare (Some ''key'') (''data:image/png;base64,'' @ [c, c, c, c]) =
     (if line_terminator c then Inl (Error ''Invalid image format'')
      else Inr (''image/png'', [c, c, c, c]))"
  by (simp add: analyzeImage_prepare_def falsy_def match_data_url_def strip_prefix_def
        mime_char_def analyzeImage_catch_def)

lemma example_racing_eq:
  "example_racing =
     \<lparr>apiKey = Some ''key'', image_st = Some ''blob:1'', loading = True, prediction = None,
      error = None, showHistory = False, history = [],
      imageFilters = DEFAULT_IMAGE_FILTERS, object_urls = [''blob:1''],
      network_calls = [(''image/png'', ''AAAA'')], timers = [(0, 30000)],
      attempts = [\<lparr>closure_image = None, phase = Racing ''data:image/png;base64,AAAA''\<rparr>]\<rparr>"
  using prepare_example [of "CHR ''A''"]
  by (simp add: example_racing_def example_reading_eq run_def step_def reader_done_def
        phase_of_def processImage_read_def line_terminator_def set_phase_def timeoutMs_def)

lemma example_superseded_eq:
  "example_superseded =
     \<lparr>apiKey = Some ''key'', image_st = Some ''blob:2'', loading = True, prediction = None,
      error = None, showHistory = False, history = [],
      imageFilters = DEFAULT_IMAGE_FILTERS, object_urls = [''blob:2'', ''blob:1''],
      network_calls = [(''image/png'', ''AAAA''), (''image/png'', ''BBBB'')],
      timers = [(0, 30000), (1, 30000)],
      attempts = [\<lparr>closure_image = None, phase = Racing ''data:image/png;base64,AAAA''\<rparr>,
                  \<lparr>closure_image = Some ''blob:1'',
                   phase = Racing ''data:image/png;base64,BBBB''\<rparr>]\<rparr>"
  using prepare_example [of "CHR ''B''"]
  by (simp add: example_superseded_def example_racing_eq run_def step_def reader_done_def
        onDrop_begin_def example_png_def maxSize_def
        phase_of_def processImage_read_def line_terminator_def set_phase_def timeoutMs_def)

lemma resume_2: "analyzeImage_resume (Fulfilled (Some (Inr ''2''))) = Inr 2"
  by (simp add: analyzeImage_resume_def trim_def is_white_space_def parseInt_def
        radix_digit_def digit_value_def to_number_def Let_def)

lemma parse_abc: "parseInt (trim ''abc'') = None"
  by (simp add: trim_def is_white_space_def parseInt_def radix_digit_def digit_value_def Let_def)

lemma parse_7: "parseInt (trim ''7'') = Some 7"
  by (simp add: trim_def is_white_space_def parseInt_def radix_digit_def digit_value_def
        to_number_def Let_def)

lemma resume_abc:
  "analyzeImage_resume (Fulfilled (Some (Inr ''abc''))) =
     Inl (Error ''Invalid model response. Please try again.'')"
  by (simp add: analyzeImage_resume_invalid parse_abc)

lemma phase_example_racing:
  "phase_of example_racing 0 = Some (Racing ''data:image/png;base64,AAAA'')"
  by (simp add: example_racing_eq phase_of_def)

lemma processImage_example:
  "processImage (Some ''key'') (Load (Some ''data:image/png;base64,AAAA''))
       (Fulfilled (Some (Inr ''2''))) ''id-1'' 1000 =
     Inr (processImage_result ''id-1'' 1000 ''data:image/png;base64,AAAA'' 2)"
  using prepare_example [of "CHR ''A''"]
  by (simp add: processImage_def processImage_read_def analyzeImage_def resume_2
        line_terminator_def)

lemma phase_example_reading: "phase_of example_reading 0 = Some Reading"
  by (simp add: example_reading_eq phase_of_def)

lemma step_example_reading:
  "step (ReaderEnds 0 (Load (Some ''data:image/png;base64,AAAA''))) example_reading =
     example_racing"
  by (simp add: example_racing_def run_def)

section \<open>Responses that are no level\<close>

text \<open>
  C3. The request of an attempt is in flight and the model answers with a text whose
  trimmed form \<open>parseInt\<close> turns into \<open>NaN\<close> (as for \<open>abc\<close>) or into an integer
  below 0 or above 4 (as for \<open>7\<close>). Then \<open>analyzeImage\<close> throws the error
  \<open>Invalid model response. Please try again.\<close>, which \<open>onDrop\<close> shows as the error,
  and the History and the prediction are what they were.
\<close>

theorem invalid_response_rejected:
  assumes "phase_of s k = Some (Racing imageData)"
    and "case parseInt (trim raw) of None \<Rightarrow> True | Some n \<Rightarrow> n < 0 \<or> 4 < n"
  shows "analyzeImage_resume (Fulfilled (Some (Inr raw))) =
           Inl (Error ''Invalid model response. Please try again.'') \<and>
         error (step (NetworkSettles k (Fulfilled (Some (Inr raw))) uuid now) s) =
           Some ''Invalid model response. Please try again.'' \<and>
         history (step (NetworkSettles k (Fulfilled (Some (Inr raw))) uuid now) s) = history s \<and>
         prediction (step (NetworkSettles k (Fulfilled (Some (Inr raw))) uuid now) s) = prediction s \<and>
         \<not> loading (step (NetworkSettles k (Fulfilled (Some (Inr raw))) uuid now) s)"
  using race_settled_fails [OF assms(1) analyzeImage_resume_invalid [OF assms(2)]]
  by (simp add: step_def analyzeImage_resume_invalid [OF assms(2)] onDrop_catch_fields
        error_onDrop_catch set_phase_fields)

theorem invalid_response_rejected_witness:
  "phase_of example_racing 0 = Some (Racing ''data:image/png;base64,AAAA'') \<and>
   parseInt (trim ''abc'') = None \<and>
   parseInt (trim ''7'') = Some 7 \<and>
   analyzeImage_resume (Fulfilled (Some (Inr ''abc''))) =
     Inl (Error ''Invalid model response. Please try again.'') \<and>
   analyzeImage_resume (Fulfilled (Some (Inr ''7''))) =
     Inl (Error ''Invalid model response. Please try again.'') \<and>
   history (step (NetworkSettles 0 (Fulfilled (Some (Inr ''abc''))) ''id-1'' 1000) example_racing) =
     history example_racing \<and>
   history (step (NetworkSettles 0 (Fulfilled (Some (Inr ''7''))) ''id-1'' 1000) example_racing) =
     history example_racing"
proof -
  have abc: "case parseInt (trim ''abc'') of None \<Rightarrow> True | Some n \<Rightarrow> n < 0 \<or> 4 < n"
    by (simp add: parse_abc)
  have seven: "case parseInt (trim ''7'') of None \<Rightarrow> True | Some n \<Rightarrow> n < 0 \<or> 4 < n"
    by (simp add: parse_7)
  from invalid_response_rejected [OF phase_example_racing abc, of "''id-1''" 1000]
    invalid_response_rejected [OF phase_example_racing seven, of "''id-1''" 1000]
    phase_example_racing parse_abc parse_7
  show ?thesis by simp
qed

section \<open>Every result is built from the table\<close>

lemma from_table_processImage_result:
  "0 \<le> lvl \<Longrightarrow> lvl \<le> 4 \<Longrightarrow> from_table (processImage_result uuid now imageData lvl)"
proof -
  assume "0 \<le> lvl" "lvl \<le> 4"
  then have "lvl \<in> {0, 1, 2, 3, 4}" by auto
  moreover have "DR_DESCRIPTIONS lvl \<noteq> None"
    using \<open>0 \<le> lvl\<close> \<open>lvl \<le> 4\<close> by (rule DR_DESCRIPTIONS_defined)
  ultimately show ?thesis
    by (simp add: from_table_def processImage_result_def)
qed

lemma processImage_from_table:
  assumes "processImage key out r uuid now = Inr res"
  shows "from_table res"
proof -
  from assms obtain imageData lvl where
    lvl: "analyzeImage key imageData r = Inr lvl" and
    res: "res = processImage_result uuid now imageData lvl"
    by (auto simp: processImage_def split: sum.splits)
  from lvl have "analyzeImage_resume r = Inr lvl"
    by (auto simp: analyzeImage_def split: sum.splits)
  then have "0 \<le> lvl \<and> lvl \<le> 4" by (rule analyzeImage_resume_range)
  with res show ?thesis by (simp add: from_table_processImage_result)
qed

lemma list_all_history_add:
  "from_table r \<Longrightarrow> list_all from_table h \<Longrightarrow> list_all from_table (history_add r h)"
  by (auto simp: history_add_def list_all_iff dest: in_set_takeD)

lemma results_onDrop_catch:
  "results_from_table s \<Longrightarrow> results_from_table (onDrop_catch img err s)"
  by (simp add: results_from_table_def onDrop_catch_fields)

lemma results_set_phase:
  "results_from_table s \<Longrightarrow> results_from_table (set_phase k p s)"
  by (simp add: results_from_table_def set_phase_fields)

lemma results_onDrop_resolved:
  "from_table r \<Longrightarrow> results_from_table s \<Longrightarrow> results_from_table (onDrop_resolved r s)"
  by (simp add: results_from_table_def onDrop_resolved_def setHistory_def list_all_history_add)

lemma results_attempt_started:
  "results_from_table s \<Longrightarrow>
     results_from_table (s\<lparr>loading := l, error := e, prediction := None, object_urls := us,
                           image_st := i, attempts := as\<rparr>)"
  by (simp add: results_from_table_def)

lemma results_onDrop_begin:
  "results_from_table s \<Longrightarrow> results_from_table (onDrop_begin img fs u s)"
  by (simp add: onDrop_begin_def results_onDrop_catch results_attempt_started split: list.split)

lemma results_request_sent:
  "results_from_table (s\<lparr>timers := t, network_calls := c\<rparr>) = results_from_table s"
  by (simp add: results_from_table_def)

lemma results_reader_done:
  "results_from_table s \<Longrightarrow> results_from_table (reader_done k out s)"
  by (simp add: reader_done_def results_onDrop_catch results_set_phase results_request_sent
        split: sum.split)

lemma results_race_settled:
  assumes "results_from_table s"
  shows "results_from_table (race_settled k r u n s)"
proof (cases "phase_of s k")
  case None
  with assms show ?thesis by (simp add: race_settled_def)
next
  case (Some p)
  show ?thesis
  proof (cases p)
    case (Racing d)
    show ?thesis
    proof (cases "analyzeImage_resume r")
      case (Inl err)
      with Some Racing assms show ?thesis
        by (simp add: race_settled_fails results_onDrop_catch results_set_phase)
    next
      case (Inr lvl)
      then have "0 \<le> lvl \<and> lvl \<le> 4" by (rule analyzeImage_resume_range)
      with Some Racing Inr assms show ?thesis
        by (simp add: race_settled_succeeds results_onDrop_resolved results_set_phase
              from_table_processImage_result)
    qed
  qed (use Some assms in \<open>simp_all add: race_settled_def\<close>)
qed

lemma results_step:
  assumes "results_from_table s"
  shows "results_from_table (step e s)"
proof (cases e)
  case (Drop img fs u)
  with assms show ?thesis by (simp add: step_def results_onDrop_begin)
next
  case (ReaderEnds k out)
  with assms show ?thesis by (simp add: step_def results_reader_done)
next
  case (TimerFires k)
  with assms show ?thesis by (simp add: step_def results_race_settled)
next
  case (NetworkSettles k r u n)
  with assms show ?thesis by (simp add: step_def results_race_settled)
next
  case (SelectEntry i)
  with assms show ?thesis
    by (auto simp: step_def selectFromHistory_def results_from_table_def list_all_length)
next
  case (DeleteEntry ident)
  with assms show ?thesis
    by (auto simp: step_def deleteFromHistory_def setHistory_def history_delete_def
          results_from_table_def list_all_iff)
next
  case Reset
  with assms show ?thesis
    by (auto simp: step_def resetAnalysis_def revokeObjectURL_def Let_def results_from_table_def
          split: option.split)
next
  case ToggleHistory
  with assms show ?thesis by (simp add: step_def results_from_table_def)
next
  case (SetImageFilters fs)
  with assms show ?thesis by (simp add: step_def results_from_table_def)
qed

lemma results_run: "results_from_table s \<Longrightarrow> results_from_table (run es s)"
  by (induction es arbitrary: s) (simp_all add: run_Nil run_Cons results_step)

text \<open>
  C1. A result that \<open>processImage\<close> resolves with has a level among 0, 1, 2, 3, 4 and
  its description is the entry of \<open>DR_DESCRIPTIONS\<close> for that level, which exists.
  Since \<open>processImage\<close> is the only place where a result is built, a state whose
  prediction and History hold such results only (a fresh page with an empty History
  is one) holds such results only after every sequence of events.
\<close>

theorem result_level_and_description_from_table:
  "(processImage key out r uuid now = Inr res \<longrightarrow>
      level res \<in> {0, 1, 2, 3, 4} \<and> description res = DR_DESCRIPTIONS (level res) \<and>
      description res \<noteq> None) \<and>
   (results_from_table s \<longrightarrow> results_from_table (run es s))"
proof -
  have "processImage key out r uuid now = Inr res \<Longrightarrow> from_table res"
    by (rule processImage_from_table)
  then show ?thesis
    using results_run [of s es] unfolding from_table_def by blast
qed

theorem result_level_and_description_from_table_witness:
  "processImage (Some ''key'') (Load (Some ''data:image/png;base64,AAAA''))
       (Fulfilled (Some (Inr ''2''))) ''id-1'' 1000 =
     Inr (processImage_result ''id-1'' 1000 ''data:image/png;base64,AAAA'' 2) \<and>
   level (processImage_result ''id-1'' 1000 ''data:image/png;base64,AAAA'' 2) = 2 \<and>
   description (processImage_result ''id-1'' 1000 ''data:image/png;base64,AAAA'' 2) =
     DR_DESCRIPTIONS 2 \<and>
   results_from_table example_fresh \<and>
   results_from_table
     (run [Drop None [example_png] ''blob:1'',
           ReaderEnds 0 (Load (Some ''data:image/png;base64,AAAA'')),
           NetworkSettles 0 (Fulfilled (Some (Inr ''2''))) ''id-1'' 1000] example_fresh)"
proof -
  have fresh: "results_from_table example_fresh"
    by (simp add: results_from_table_def example_fresh_def initial_state_def)
  have "level (processImage_result ''id-1'' 1000 ''data:image/png;base64,AAAA'' 2) = 2"
    by (simp add: processImage_result_def)
  with processImage_example fresh
    result_level_and_description_from_table
      [of "Some ''key''" "Load (Some ''data:image/png;base64,AAAA'')"
          "Fulfilled (Some (Inr ''2''))" "''id-1''" 1000
          "processImage_result ''id-1'' 1000 ''data:image/png;base64,AAAA'' 2"
          example_fresh
          "[Drop None [example_png] ''blob:1'',
            ReaderEnds 0 (Load (Some ''data:image/png;base64,AAAA'')),
            NetworkSettles 0 (Fulfilled (Some (Inr ''2''))) ''id-1'' 1000]"]
  show ?thesis by simp
qed

section \<open>The race against the timer\<close>

lemma phase_of_onDrop_catch: "phase_of (onDrop_catch img err s) k = phase_of s k"
  by (simp add: phase_of_def onDrop_catch_fields)

lemma phase_of_set_phase:
  "phase_of (set_phase j p s) k =
     (if k = j \<and> j < length (attempts s) then Some p else phase_of s k)"
  by (simp add: phase_of_def set_phase_def nth_list_update)

lemma phase_of_onDrop_resolved: "phase_of (onDrop_resolved r s) k = phase_of s k"
  by (simp add: phase_of_def onDrop_resolved_def setHistory_def)

lemma phase_of_onDrop_begin:
  "phase_of s k = Some p \<Longrightarrow> phase_of (onDrop_begin img fs u s) k = Some p"
  by (auto simp: phase_of_def onDrop_begin_def onDrop_catch_fields nth_append
        split: list.split if_splits)

lemma phase_of_request_sent:
  "phase_of (s\<lparr>timers := t, network_calls := c\<rparr>) k = phase_of s k"
  by (simp add: phase_of_def)

lemma same_attempts:
  "attempts t = attempts s \<Longrightarrow> phase_of s k = Some p \<Longrightarrow> phase_of t k = Some p"
  by (simp add: phase_of_def split: if_splits)

lemma settled_reader_done:
  assumes "phase_of s k = Some Settled"
  shows "phase_of (reader_done j out s) k = Some Settled"
proof (cases "phase_of s j = Some Reading")
  case True
  with assms have "k \<noteq> j" by auto
  with assms True show ?thesis
    by (simp add: reader_done_def phase_of_onDrop_catch phase_of_set_phase
          phase_of_request_sent split: sum.split)
next
  case False
  with assms show ?thesis by (simp add: reader_done_def)
qed

lemma settled_race_settled:
  assumes "phase_of s k = Some Settled"
  shows "phase_of (race_settled j r u n s) k = Some Settled"
  using assms
  by (auto simp: race_settled_def phase_of_onDrop_catch phase_of_set_phase
        phase_of_onDrop_resolved split: option.split phase.split sum.split)

lemma settled_step:
  assumes "phase_of s k = Some Settled"
  shows "phase_of (step e s) k = Some Settled"
proof (cases e)
  case (Drop img fs u)
  with assms show ?thesis by (simp add: step_def phase_of_onDrop_begin)
next
  case (ReaderEnds j out)
  with assms show ?thesis by (simp add: step_def settled_reader_done)
next
  case (TimerFires j)
  with assms show ?thesis by (simp add: step_def settled_race_settled)
next
  case (NetworkSettles j r u n)
  with assms show ?thesis by (simp add: step_def settled_race_settled)
next
  case (SelectEntry i)
  then have "attempts (step e s) = attempts s"
    by (simp add: step_def selectFromHistory_def)
  then show ?thesis using assms by (rule same_attempts)
next
  case (DeleteEntry ident)
  then have "attempts (step e s) = attempts s"
    by (simp add: step_def deleteFromHistory_def setHistory_def)
  then show ?thesis using assms by (rule same_attempts)
next
  case Reset
  then have "attempts (step e s) = attempts s"
    by (simp add: step_def resetAnalysis_def revokeObjectURL_def Let_def split: option.split)
  then show ?thesis using assms by (rule same_attempts)
next
  case ToggleHistory
  then have "attempts (step e s) = attempts s"
    by (simp add: step_def)
  then show ?thesis using assms by (rule same_attempts)
next
  case (SetImageFilters fs)
  then have "attempts (step e s) = attempts s"
    by (simp add: step_def)
  then show ?thesis using assms by (rule same_attempts)
qed

lemma settled_run: "phase_of s k = Some Settled \<Longrightarrow> phase_of (run es s) k = Some Settled"
  by (induction es arbitrary: s) (simp_all add: run_Nil run_Cons settled_step)

lemma settled_after_race:
  assumes "phase_of s k = Some (Racing d)"
  shows "phase_of (race_settled k r u n s) k = Some Settled"
proof -
  from assms have "k < length (attempts s)"
    by (simp add: phase_of_def split: if_splits)
  with assms show ?thesis
    by (simp add: race_settled_def phase_of_onDrop_catch phase_of_onDrop_resolved
          phase_of_set_phase split: sum.split)
qed

lemma reader_done_arms_timer:
  assumes "phase_of s k = Some Reading"
    and "phase_of (reader_done k out s) k = Some (Racing d)"
  shows "timers (reader_done k out s) = timers s @ [(k, 30000)] \<and>
         length (network_calls (reader_done k out s)) = Suc (length (network_calls s))"
proof -
  from assms(1) have k: "k < length (attempts s)"
    by (simp add: phase_of_def split: if_splits)
  show ?thesis
  proof (cases "processImage_read out")
    case (Inl err)
    with assms k show ?thesis
      by (simp add: reader_done_def phase_of_onDrop_catch phase_of_set_phase)
  next
    case (Inr imageData)
    show ?thesis
    proof (cases "analyzeImage_prepare (apiKey s) imageData")
      case (Inl err)
      with assms k \<open>processImage_read out = Inr imageData\<close> show ?thesis
        by (simp add: reader_done_def phase_of_onDrop_catch phase_of_set_phase)
    next
      case (Inr request)
      with assms(1) \<open>processImage_read out = Inr imageData\<close> show ?thesis
        by (simp add: reader_done_def set_phase_fields timeoutMs_def)
    qed
  qed
qed

text \<open>
  C4. When the file of an attempt has been read and its request is sent, a timer of
  30000 milliseconds is armed for the attempt. When that timer fires while the
  request is in flight, the attempt fails with the error
  \<open>Analysis timed out. Please try again.\<close>, the prediction and the History stay as
  they were, and whatever events follow, the settlement of the request of that attempt,
  with any response or failure, leaves the whole state as it is.
\<close>

theorem timeout_wins_race:
  "(phase_of s0 k = Some Reading \<and>
      phase_of (step (ReaderEnds k out) s0) k = Some (Racing imageData) \<longrightarrow>
      timers (step (ReaderEnds k out) s0) = timers s0 @ [(k, 30000)]) \<and>
   (phase_of s k = Some (Racing imageData) \<longrightarrow>
      error (step (TimerFires k) s) = Some ''Analysis timed out. Please try again.'' \<and>
      \<not> loading (step (TimerFires k) s) \<and>
      prediction (step (TimerFires k) s) = prediction s \<and>
      history (step (TimerFires k) s) = history s \<and>
      step (NetworkSettles k r uuid now) (run es (step (TimerFires k) s)) =
        run es (step (TimerFires k) s))"
proof -
  have armed: "timers (step (ReaderEnds k out) s0) = timers s0 @ [(k, 30000)]"
    if "phase_of s0 k = Some Reading"
      and "phase_of (step (ReaderEnds k out) s0) k = Some (Racing imageData)"
    using reader_done_arms_timer [of s0 k out imageData] that by (simp add: step_def)
  have fired: "error (step (TimerFires k) s) = Some ''Analysis timed out. Please try again.'' \<and>
      \<not> loading (step (TimerFires k) s) \<and>
      prediction (step (TimerFires k) s) = prediction s \<and>
      history (step (TimerFires k) s) = history s \<and>
      step (NetworkSettles k r uuid now) (run es (step (TimerFires k) s)) =
        run es (step (TimerFires k) s)"
    if racing: "phase_of s k = Some (Racing imageData)"
  proof -
    have t: "step (TimerFires k) s =
        onDrop_catch (closure_image (attempts s ! k))
          (Error ''Analysis timed out. Please try again.'') (set_phase k Settled s)"
      using race_settled_fails [OF racing resume_timeout] by (simp add: step_def)
    have "phase_of (step (TimerFires k) s) k = Some Settled"
      using settled_after_race [OF racing] by (simp add: step_def)
    then have "phase_of (run es (step (TimerFires k) s)) k = Some Settled"
      by (rule settled_run)
    then have "step (NetworkSettles k r uuid now) (run es (step (TimerFires k) s)) =
        run es (step (TimerFires k) s)"
      by (simp add: step_def race_settled_idle)
    with t show ?thesis
      by (simp add: onDrop_catch_fields error_onDrop_catch set_phase_fields)
  qed
  from armed fired show ?thesis by blast
qed

theorem timeout_wins_race_witness:
  "phase_of example_reading 0 = Some Reading \<and>
   phase_of (step (ReaderEnds 0 (Load (Some ''data:image/png;base64,AAAA''))) example_reading) 0 =
     Some (Racing ''data:image/png;base64,AAAA'') \<and>
   timers (step (ReaderEnds 0 (Load (Some ''data:image/png;base64,AAAA''))) example_reading) =
     timers example_reading @ [(0, 30000)] \<and>
   phase_of example_racing 0 = Some (Racing ''data:image/png;base64,AAAA'') \<and>
   error (step (TimerFires 0) example_racing) = Some ''Analysis timed out. Please try again.'' \<and>
   history (step (TimerFires 0) example_racing) = history example_racing \<and>
   step (NetworkSettles 0 (Fulfilled (Some (Inr ''2''))) ''id-1'' 1000)
       (run [ToggleHistory] (step (TimerFires 0) example_racing)) =
     run [ToggleHistory] (step (TimerFires 0) example_racing)"
proof -
  have started: "phase_of example_reading 0 = Some Reading \<and>
      phase_of (step (ReaderEnds 0 (Load (Some ''data:image/png;base64,AAAA''))) example_reading) 0 =
        Some (Racing ''data:image/png;base64,AAAA'')"
    by (simp add: phase_example_reading step_example_reading phase_example_racing)
  from started phase_example_racing
    timeout_wins_race [of example_reading 0 "Load (Some ''data:image/png;base64,AAAA'')"
      "''data:image/png;base64,AAAA''" example_racing "Fulfilled (Some (Inr ''2''))" "''id-1''"
      1000 "[ToggleHistory]"]
  show ?thesis by blast
qed

section \<open>An attempt overtaken by a newer one\<close>

text \<open>
  C5, as stated, fails. A first file is dropped and read, and while its request is in
  flight a second file is dropped and read. The first request then answers \<open>2\<close>:
  its result becomes the prediction and the first entry of the History, although the
  newer attempt has started and the image shown is the one of the second file.
\<close>

theorem superseded_resolution_counterexample:
  "phase_of example_superseded 0 = Some (Racing ''data:image/png;base64,AAAA'') \<and>
   phase_of example_superseded 1 = Some (Racing ''data:image/png;base64,BBBB'') \<and>
   image_st example_superseded = Some ''blob:2'' \<and>
   prediction example_superseded = None \<and>
   history example_superseded = [] \<and>
   prediction
       (step (NetworkSettles 0 (Fulfilled (Some (Inr ''2''))) ''id-1'' 1000) example_superseded) =
     Some (processImage_result ''id-1'' 1000 ''data:image/png;base64,AAAA'' 2) \<and>
   history
       (step (NetworkSettles 0 (Fulfilled (Some (Inr ''2''))) ''id-1'' 1000) example_superseded) =
     [processImage_result ''id-1'' 1000 ''data:image/png;base64,AAAA'' 2]"
proof -
  have p: "phase_of example_superseded 0 = Some (Racing ''data:image/png;base64,AAAA'')"
    "phase_of example_superseded 1 = Some (Racing ''data:image/png;base64,BBBB'')"
    by (simp_all add: example_superseded_eq phase_of_def)
  have "race_settled 0 (Fulfilled (Some (Inr ''2''))) ''id-1'' 1000 example_superseded =
      onDrop_resolved (processImage_result ''id-1'' 1000 ''data:image/png;base64,AAAA'' 2)
        (set_phase 0 Settled example_superseded)"
    using p(1) resume_2 by (rule race_settled_succeeds)
  then have "prediction
       (step (NetworkSettles 0 (Fulfilled (Some (Inr ''2''))) ''id-1'' 1000) example_superseded) =
     Some (processImage_result ''id-1'' 1000 ''data:image/png;base64,AAAA'' 2)"
    "history
       (step (NetworkSettles 0 (Fulfilled (Some (Inr ''2''))) ''id-1'' 1000) example_superseded) =
     history_add (processImage_result ''id-1'' 1000 ''data:image/png;base64,AAAA'' 2)
       (history example_superseded)"
    by (simp_all add: step_def onDrop_resolved_def setHistory_def set_phase_fields)
  moreover have "history example_superseded = []" "prediction example_superseded = None"
    "image_st example_superseded = Some ''blob:2''"
    by (simp_all add: example_superseded_eq)
  ultimately show ?thesis using p by (simp add: history_add_def)
qed

text \<open>
  C5, amended. The code holds no request generation: the resolution of an attempt is
  applied whether or not a newer attempt has started. When the request of an attempt
  that is not the newest one settles with a valid level, its result becomes the
  prediction, it is put in front of the History, and \<open>loading\<close> is cleared.
\<close>

theorem superseded_attempt_still_updates:
  assumes "phase_of s k = Some (Racing imageData)"
    and "Suc k < length (attempts s)"
    and "analyzeImage_resume r = Inr lvl"
  shows "prediction (step (NetworkSettles k r uuid now) s) =
           Some (processImage_result uuid now imageData lvl) \<and>
         history (step (NetworkSettles k r uuid now) s) =
           history_add (processImage_result uuid now imageData lvl) (history s) \<and>
         \<not> loading (step (NetworkSettles k r uuid now) s)"
  using race_settled_succeeds [OF assms(1) assms(3)]
  by (simp add: step_def onDrop_resolved_def setHistory_def set_phase_fields)

theorem superseded_attempt_still_updates_witness:
  "phase_of example_superseded 0 = Some (Racing ''data:image/png;base64,AAAA'') \<and>
   Suc 0 < length (attempts example_superseded) \<and>
   analyzeImage_resume (Fulfilled (Some (Inr ''2''))) = Inr 2 \<and>
   prediction
       (step (NetworkSettles 0 (Fulfilled (Some (Inr ''2''))) ''id-1'' 1000) example_superseded) =
     Some (processImage_result ''id-1'' 1000 ''data:image/png;base64,AAAA'' 2) \<and>
   \<not> loading
       (step (NetworkSettles 0 (Fulfilled (Some (Inr ''2''))) ''id-1'' 1000) example_superseded)"
proof -
  have p: "phase_of example_superseded 0 = Some (Racing ''data:image/png;base64,AAAA'')"
    by (simp add: example_superseded_eq phase_of_def)
  have newer: "Suc 0 < length (attempts example_superseded)"
    by (simp add: example_superseded_eq)
  from superseded_attempt_still_updates [OF p newer resume_2, of "''id-1''" 1000] p newer resume_2
  show ?thesis by simp
qed

section \<open>The preview of a failed attempt\<close>

text \<open>
  C7 at a failing input. On a fresh page a PNG file is dropped and read; its preview
  is the object URL \<open>blob:1\<close>. The model answers \<open>abc\<close>, so the attempt fails and the
  error is shown. The \<open>catch\<close> block of \<open>onDrop\<close> tests the variable \<open>image\<close> of its
  closure, which is \<open>null\<close> as it was when the callback was created, not the object URL
  of this attempt: the preview stays and its object URL is not revoked.
\<close>

theorem failed_attempt_keeps_preview:
  "image_st example_racing = Some ''blob:1'' \<and>
   object_urls example_racing = [''blob:1''] \<and>
   error (step (NetworkSettles 0 (Fulfilled (Some (Inr ''abc''))) ''id-1'' 1000) example_racing) =
     Some ''Invalid model response. Please try again.'' \<and>
   image_st (step (NetworkSettles 0 (Fulfilled (Some (Inr ''abc''))) ''id-1'' 1000) example_racing) =
     Some ''blob:1'' \<and>
   object_urls (step (NetworkSettles 0 (Fulfilled (Some (Inr ''abc''))) ''id-1'' 1000) example_racing) =
     [''blob:1'']"
proof -
  have "race_settled 0 (Fulfilled (Some (Inr ''abc''))) ''id-1'' 1000 example_racing =
      onDrop_catch (closure_image (attempts example_racing ! 0))
        (Error ''Invalid model response. Please try again.'') (set_phase 0 Settled example_racing)"
    using phase_example_racing resume_abc by (rule race_settled_fails)
  moreover have "closure_image (attempts example_racing ! 0) = None"
    by (simp add: example_racing_eq)
  ultimately have "step (NetworkSettles 0 (Fulfilled (Some (Inr ''abc''))) ''id-1'' 1000) example_racing =
      (set_phase 0 Settled example_racing)
        \<lparr>error := Some ''Invalid model response. Please try again.'', loading := False\<rparr>"
    by (simp add: step_def onDrop_catch_def)
  then show ?thesis
    by (simp add: set_phase_fields) (simp add: example_racing_eq)
qed

section \<open>Responses that begin with a level\<close>

lemma level_digit_facts:
  assumes "d \<in> set ''01234''"
  shows "\<not> is_white_space d" and "d \<noteq> CHR ''-''" and "d \<noteq> CHR ''+''"
    and "radix_digit 10 d" and "digit_value d = Some (of_char d - 48)"
    and "(of_char d :: nat) - 48 \<le> 4" and "48 \<le> (of_char d :: nat)"
  using assms by (auto simp: is_white_space_def radix_digit_def digit_value_def)

lemma parseInt_leading_digit:
  assumes d: "d \<in> set ''01234''"
    and rest: "rest \<noteq> []" "list_all (\<lambda>c. \<not> radix_digit 10 c) rest"
    and nohex: "\<not> (d = CHR ''0'' \<and> (hd rest = CHR ''x'' \<or> hd rest = CHR ''X''))"
  shows "parseInt (d # rest) = Some (int (of_char d) - 48)"
proof -
  from rest obtain c cs where cs: "rest = c # cs" "\<not> radix_digit 10 c"
    by (cases rest) auto
  from nohex cs have hex: "\<not> (d = CHR ''0'' \<and> (c = CHR ''x'' \<or> c = CHR ''X''))"
    by simp
  have "parseInt (d # c # cs) = Some (int (of_char d - 48))"
    unfolding parseInt_def Let_def
    using hex cs(2) level_digit_facts(1-5) [OF d]
    by (auto simp: numeral_2_eq_2 to_number_def)
  with level_digit_facts(7) [OF d] cs(1) show ?thesis by simp
qed

text \<open>
  C10, as stated, fails. The texts \<open>0xA\<close> and \<open>0xZ\<close> begin with the digit 0, and the
  characters that follow are no decimal digits. \<open>parseInt\<close> reads the prefix \<open>0x\<close> as
  the mark of a hexadecimal number: it returns 10 for the first text and \<open>NaN\<close> for
  the second, and in both cases the analysis fails with the error of an invalid
  response.
\<close>

theorem hex_prefix_counterexample:
  "trim ''0xA'' = CHR ''0'' # ''xA'' \<and> trim ''0xZ'' = CHR ''0'' # ''xZ'' \<and>
   CHR ''0'' \<in> set ''01234'' \<and>
   \<not> radix_digit 10 CHR ''x'' \<and> \<not> radix_digit 10 CHR ''A'' \<and> \<not> radix_digit 10 CHR ''Z'' \<and>
   parseInt (trim ''0xA'') = Some 10 \<and>
   parseInt (trim ''0xZ'') = None \<and>
   analyzeImage_resume (Fulfilled (Some (Inr ''0xA''))) =
     Inl (Error ''Invalid model response. Please try again.'') \<and>
   analyzeImage_resume (Fulfilled (Some (Inr ''0xZ''))) =
     Inl (Error ''Invalid model response. Please try again.'')"
proof -
  have t: "trim ''0xA'' = ''0xA''" "trim ''0xZ'' = ''0xZ''"
    by (simp_all add: trim_def is_white_space_def)
  have p: "parseInt ''0xA'' = Some 10" "parseInt ''0xZ'' = None"
    by (simp_all add: is_white_space_def parseInt_def radix_digit_def digit_value_def
          to_number_def Let_def)
  have "analyzeImage_resume (Fulfilled (Some (Inr ''0xA''))) =
      Inl (Error ''Invalid model response. Please try again.'')"
    by (rule analyzeImage_resume_invalid) (simp add: t p)
  moreover have "analyzeImage_resume (Fulfilled (Some (Inr ''0xZ''))) =
      Inl (Error ''Invalid model response. Please try again.'')"
    by (rule analyzeImage_resume_invalid) (simp add: t p)
  ultimately show ?thesis
    using t p by (simp add: radix_digit_def digit_value_def)
qed

text \<open>
  C10, amended. The trimmed text of the response begins with one of the digits 0 to 4,
  followed by at least one character, none of them a decimal digit, and it does not
  begin with \<open>0x\<close> or \<open>0X\<close>. Then \<open>analyzeImage\<close> returns the leading digit as the
  level, and the attempt in flight ends with the result of that level as the
  prediction, with no error set.
\<close>

theorem leading_digit_accepted:
  assumes "trim raw = d # rest" and "d \<in> set ''01234''"
    and "rest \<noteq> []" and "list_all (\<lambda>c. \<not> radix_digit 10 c) rest"
    and "\<not> (d = CHR ''0'' \<and> (hd rest = CHR ''x'' \<or> hd rest = CHR ''X''))"
    and "phase_of s k = Some (Racing imageData)"
  shows "analyzeImage_resume (Fulfilled (Some (Inr raw))) = Inr (int (of_char d) - 48) \<and>
         prediction (step (NetworkSettles k (Fulfilled (Some (Inr raw))) uuid now) s) =
           Some (processImage_result uuid now imageData (int (of_char d) - 48)) \<and>
         error (step (NetworkSettles k (Fulfilled (Some (Inr raw))) uuid now) s) = error s"
proof -
  have p: "parseInt (trim raw) = Some (int (of_char d) - 48)"
    using assms(1-5) by (simp add: parseInt_leading_digit)
  have "0 \<le> int (of_char d) - 48" "int (of_char d) - 48 \<le> 4"
    using level_digit_facts(6,7) [OF assms(2)] by linarith+
  with p have r: "analyzeImage_resume (Fulfilled (Some (Inr raw))) = Inr (int (of_char d) - 48)"
    by (simp add: analyzeImage_resume_def)
  from race_settled_succeeds [OF assms(6) r] r show ?thesis
    by (simp add: step_def onDrop_resolved_def setHistory_def set_phase_fields)
qed

theorem leading_digit_accepted_witness:
  "trim ''2 Moderate DR'' = CHR ''2'' # '' Moderate DR'' \<and> CHR ''2'' \<in> set ''01234'' \<and>
   '' Moderate DR'' \<noteq> [] \<and> list_all (\<lambda>c. \<not> radix_digit 10 c) '' Moderate DR'' \<and>
   phase_of example_racing 0 = Some (Racing ''data:image/png;base64,AAAA'') \<and>
   analyzeImage_resume (Fulfilled (Some (Inr ''2 Moderate DR''))) = Inr 2 \<and>
   prediction
       (step (NetworkSettles 0 (Fulfilled (Some (Inr ''2 Moderate DR''))) ''id-1'' 1000)
          example_racing) =
     Some (processImage_result ''id-1'' 1000 ''data:image/png;base64,AAAA'' 2)"
proof -
  have t: "trim ''2 Moderate DR'' = CHR ''2'' # '' Moderate DR''"
    by (simp add: trim_def is_white_space_def)
  have d: "CHR ''2'' \<in> set ''01234''"
    by simp
  have ne: "'' Moderate DR'' \<noteq> []"
    by simp
  have nd: "list_all (\<lambda>c. \<not> radix_digit 10 c) '' Moderate DR''"
    by (simp add: radix_digit_def digit_value_def)
  have nh: "\<not> (CHR ''2'' = CHR ''0'' \<and>
      (hd '' Moderate DR'' = CHR ''x'' \<or> hd '' Moderate DR'' = CHR ''X''))"
    by simp
  from leading_digit_accepted [OF t d ne nd nh phase_example_racing, of "''id-1''" 1000]
    t d nd phase_example_racing
  show ?thesis by simp
qed

section \<open>Selecting an entry of the History\<close>






end
